theory Spec2Isabelle
  imports Main "HOL-Library.Sublist"
begin

section \<open>The read/write test harness of src/main.cc\<close>

text \<open>
  The program parses its command line into a list of operations, creates the Firebase
  application and the Firestore client, and performs the operations one after the other on
  the document \<^verbatim>\<open>UnityIssue1154TestApp/TestDoc\<close>, printing what happens.

  The Firebase C++ SDK is not part of the repository. What the program receives from it is a
  parameter of the model: the numeric values of the enumeration \<^verbatim>\<open>Error\<close>, whether the two
  creation calls return an object, and the future that each \<^verbatim>\<open>Get\<close> and \<^verbatim>\<open>Set\<close> call returns.
  What the program does to the outside (lines written to standard output, requests issued,
  waits that returned) is an event trace, in the order of occurrence.

  The repository holds a second text of the program, after the text of src/README.md: there
  the parser is \<^verbatim>\<open>ParseArguments\<close>, which knows the flags \<^verbatim>\<open>--key\<close> and \<^verbatim>\<open>--value\<close>, and
  \<^verbatim>\<open>DoWrite\<close> takes the key and the value to write. This development is about src/main.cc,
  whose parser is \<^verbatim>\<open>ParseOperations\<close> and whose \<^verbatim>\<open>DoWrite\<close> takes the document only.
\<close>

subsection \<open>Operations and the argument parser\<close>

text \<open>
  \<^verbatim>\<open>enum class Operation { kRead, kWrite }\<close> is a scoped enumeration over \<^verbatim>\<open>int\<close>:
  \<^verbatim>\<open>kRead\<close> is 0, \<^verbatim>\<open>kWrite\<close> is 1, and an object of the type can hold any other
  value of the underlying type, which is what the \<^verbatim>\<open>default\<close> label of the switch in
  \<^verbatim>\<open>main\<close> is written for.
\<close>

datatype Operation = Operation int

definition kRead :: Operation where
  "kRead = Operation 0"

definition kWrite :: Operation where
  "kWrite = Operation 1"

fun static_cast_int :: "Operation \<Rightarrow> int" where
  "static_cast_int (Operation n) = n"

datatype ArgParseException = ArgParseException string

fun what :: "ArgParseException \<Rightarrow> string" where
  "what (ArgParseException w) = w"

text \<open>
  The body of the \<^verbatim>\<open>for\<close> loop of \<^verbatim>\<open>ParseOperations\<close>, on the arguments that are still
  to be read and the vector built so far. The \<^verbatim>\<open>throw\<close> leaves the loop with \<open>Inl\<close>.
\<close>

fun parse_loop :: "string list \<Rightarrow> Operation list \<Rightarrow> ArgParseException + Operation list" where
  \<open>parse_loop [] operations = Inr operations\<close>
| \<open>parse_loop (operation_name # rest) operations =
     (if operation_name = ''read'' then parse_loop rest (operations @ [kRead])
      else if operation_name = ''write'' then parse_loop rest (operations @ [kWrite])
      else Inl (ArgParseException
             (''invalid argument: '' @ operation_name
               @ '' (must be either "read" or "write")'')))\<close>

text \<open>
  \<open>argv\<close> is the whole argument vector, the program name first; \<open>argc\<close> is its length and
  the loop starts at index 1.
\<close>

definition ParseOperations :: "string list \<Rightarrow> ArgParseException + Operation list" where
  \<open>ParseOperations argv =
     (case parse_loop (drop 1 argv) [] of
        Inl e \<Rightarrow> Inl e
      | Inr operations \<Rightarrow>
          if length operations = 0
          then Inl (ArgParseException
                 (''No arguments specified; ''
                   @ ''one or more of "read" or "write" is required''))
          else Inr operations)\<close>

subsection \<open>Decimal output\<close>

text \<open>
  \<^verbatim>\<open>std::to_string\<close> on an \<^verbatim>\<open>int\<close> and \<^verbatim>\<open>operator<<\<close> on an integer print the
  decimal digits, most significant first, after a minus sign for a negative number.
\<close>

definition digit_char :: "nat \<Rightarrow> char" where
  "digit_char d = char_of (48 + d)"

fun decimal :: "nat \<Rightarrow> string" where
  "decimal n = (if n < 10 then [digit_char n] else decimal (n div 10) @ [digit_char (n mod 10)])"

declare decimal.simps [simp del]

definition to_string :: "int \<Rightarrow> string" where
  "to_string i = (if i < 0 then CHR ''-'' # decimal (nat (- i)) else decimal (nat i))"

subsection \<open>What the SDK hands to the program\<close>

text \<open>
  The enumerators of \<^verbatim>\<open>firebase::firestore::Error\<close> that the program names. Their values
  are declared in a header of the SDK; the model takes them as a parameter. The labels of a
  \<^verbatim>\<open>switch\<close> are pairwise different, or the program would not compile.
\<close>

record Error =
  kErrorOk :: int
  kErrorCancelled :: int
  kErrorUnknown :: int
  kErrorInvalidArgument :: int
  kErrorDeadlineExceeded :: int
  kErrorNotFound :: int
  kErrorAlreadyExists :: int
  kErrorPermissionDenied :: int
  kErrorResourceExhausted :: int
  kErrorFailedPrecondition :: int
  kErrorAborted :: int
  kErrorOutOfRange :: int
  kErrorUnimplemented :: int
  kErrorInternal :: int
  kErrorUnavailable :: int
  kErrorDataLoss :: int
  kErrorUnauthenticated :: int

definition case_labels :: "Error \<Rightarrow> int list" where
  "case_labels E =
     [kErrorOk E, kErrorCancelled E, kErrorUnknown E, kErrorInvalidArgument E,
      kErrorDeadlineExceeded E, kErrorNotFound E, kErrorAlreadyExists E,
      kErrorPermissionDenied E, kErrorResourceExhausted E, kErrorFailedPrecondition E,
      kErrorAborted E, kErrorOutOfRange E, kErrorUnimplemented E, kErrorInternal E,
      kErrorUnavailable E, kErrorDataLoss E, kErrorUnauthenticated E]"

text \<open>The values the SDK gives the enumerators (the canonical status codes 0 to 16).\<close>

definition firestore_errors :: Error where
  "firestore_errors =
     \<lparr>kErrorOk = 0, kErrorCancelled = 1, kErrorUnknown = 2, kErrorInvalidArgument = 3,
      kErrorDeadlineExceeded = 4, kErrorNotFound = 5, kErrorAlreadyExists = 6,
      kErrorPermissionDenied = 7, kErrorResourceExhausted = 8, kErrorFailedPrecondition = 9,
      kErrorAborted = 10, kErrorOutOfRange = 11, kErrorUnimplemented = 12, kErrorInternal = 13,
      kErrorUnavailable = 14, kErrorDataLoss = 15, kErrorUnauthenticated = 16\<rparr>"

datatype FutureStatus = kFutureStatusComplete | kFutureStatusPending | kFutureStatusInvalid

datatype Source = kDefault | kServer | kCache

text \<open>
  A field value is an integer, as \<^verbatim>\<open>FieldValue::Integer\<close> builds it, or a value of one of
  the other kinds of the SDK, which the program never builds and only prints: such a value is
  carried as the text that \<^verbatim>\<open>operator<<\<close> prints for it.
\<close>

datatype FieldValue = Integer int | Printed string

fun ToString :: "FieldValue \<Rightarrow> string" where
  "ToString (Integer n) = to_string n"
| "ToString (Printed s) = s"

text \<open>
  \<^verbatim>\<open>MapFieldValue\<close> is a map from field names to field values. The model keeps its entries
  as the list that iterating over the map yields, so the size of the map is the length of
  the list. \<^verbatim>\<open>map[key] = value\<close> replaces the value of a present key and adds an absent one.
\<close>

type_synonym MapFieldValue = "(string \<times> FieldValue) list"

fun map_assign :: "string \<Rightarrow> FieldValue \<Rightarrow> MapFieldValue \<Rightarrow> MapFieldValue" where
  "map_assign k v [] = [(k, v)]"
| "map_assign k v (entry # rest) =
     (if fst entry = k then (k, v) # rest else entry # map_assign k v rest)"

text \<open>
  A future as the program finds it: \<open>status\<close> is the status the handle settles in, and
  \<open>kFutureStatusPending\<close> there stands for a handle whose completion never arrives;
  \<open>error\<close> and \<open>error_message\<close> are what the accessors of the same names return after the
  wait, and \<open>result_data\<close> is what \<^verbatim>\<open>future.result()->GetData(...)\<close> returns (only the
  future of a \<^verbatim>\<open>Get\<close> is asked for it).
\<close>

record Future =
  status :: FutureStatus
  error :: int
  error_message :: string
  result_data :: MapFieldValue

text \<open>
  The collaborator: whether \<^verbatim>\<open>App::Create\<close> and \<^verbatim>\<open>Firestore::GetInstance\<close> return an
  object (or the null pointer), and the future returned by the \<open>n\<close>-th request that the
  program issues, counting from 0.
\<close>

record Collaborator =
  app_created :: bool
  firestore_created :: bool
  futures :: "nat \<Rightarrow> Future"

datatype DocumentReference = Document string

fun path :: "DocumentReference \<Rightarrow> string" where
  "path (Document p) = p"

subsection \<open>The trace of a run\<close>

datatype Request = Get DocumentReference Source | SetFields DocumentReference MapFieldValue

datatype Event = Print string | Issue Request | Awaited

text \<open>A call that returns a value, or one that blocks for ever; both with the trace so far.\<close>

datatype 'a Run = Returned 'a "Event list" | Blocked "Event list"

fun trace :: "'a Run \<Rightarrow> Event list" where
  "trace (Returned x t) = t"
| "trace (Blocked t) = t"

fun requests :: "Event list \<Rightarrow> Request list" where
  "requests [] = []"
| "requests (Print s # t) = requests t"
| "requests (Issue r # t) = r # requests t"
| "requests (Awaited # t) = requests t"

fun stdout :: "Event list \<Rightarrow> string list" where
  "stdout [] = []"
| "stdout (Print s # t) = s # stdout t"
| "stdout (Issue r # t) = stdout t"
| "stdout (Awaited # t) = stdout t"

text \<open>\<^verbatim>\<open>Log\<close> writes its arguments one after the other and ends the line.\<close>

definition Log :: "string list \<Rightarrow> Event list \<Rightarrow> Event list" where
  "Log message t = t @ [Print (concat message)]"

subsection \<open>Naming an error code\<close>

definition FirestoreErrorNameFromErrorCode :: "Error \<Rightarrow> int \<Rightarrow> string" where
  "FirestoreErrorNameFromErrorCode E err =
     (if err = kErrorOk E then ''kErrorOk''
      else if err = kErrorCancelled E then ''kErrorCancelled''
      else if err = kErrorUnknown E then ''kErrorUnknown''
      else if err = kErrorInvalidArgument E then ''kErrorInvalidArgument''
      else if err = kErrorDeadlineExceeded E then ''kErrorDeadlineExceeded''
      else if err = kErrorNotFound E then ''kErrorNotFound''
      else if err = kErrorAlreadyExists E then ''kErrorAlreadyExists''
      else if err = kErrorPermissionDenied E then ''kErrorPermissionDenied''
      else if err = kErrorResourceExhausted E then ''kErrorResourceExhausted''
      else if err = kErrorFailedPrecondition E then ''kErrorFailedPrecondition''
      else if err = kErrorAborted E then ''kErrorAborted''
      else if err = kErrorOutOfRange E then ''kErrorOutOfRange''
      else if err = kErrorUnimplemented E then ''kErrorUnimplemented''
      else if err = kErrorInternal E then ''kErrorInternal''
      else if err = kErrorUnavailable E then ''kErrorUnavailable''
      else if err = kErrorDataLoss E then ''kErrorDataLoss''
      else if err = kErrorUnauthenticated E then ''kErrorUnauthenticated''
      else to_string err)"

subsection \<open>Waiting for a future\<close>

text \<open>
  \<^verbatim>\<open>AwaitInvoked\<close> waits on the condition variable with the predicate that the status of
  the future is not \<^verbatim>\<open>kFutureStatusPending\<close>: it returns when the status is not pending and
  does not return while it is. The constructor of \<^verbatim>\<open>AwaitableFutureCompletion\<close> only
  registers the callback that notifies the condition variable; the threads, the mutex and
  the notification are below the level of this model.
\<close>

definition AwaitInvoked :: "Future \<Rightarrow> Event list \<Rightarrow> unit Run" where
  "AwaitInvoked future t =
     (if status future \<noteq> kFutureStatusPending then Returned () (t @ [Awaited]) else Blocked t)"

definition AwaitCompletion :: "Error \<Rightarrow> Future \<Rightarrow> string \<Rightarrow> Event list \<Rightarrow> unit Run" where
  "AwaitCompletion E future name t =
     (case AwaitInvoked future (Log [name, '' start''] t) of
        Blocked t' \<Rightarrow> Blocked t'
      | Returned u t' \<Rightarrow>
          if error future \<noteq> kErrorOk E
          then Returned ()
                 (Log [name, '' FAILED: '', FirestoreErrorNameFromErrorCode E (error future),
                       '' '', error_message future] t')
          else Returned () (Log [name, '' done''] t'))"

subsection \<open>The two operations\<close>

text \<open>
  The range-based \<^verbatim>\<open>for\<close> loop of \<^verbatim>\<open>DoRead\<close>; \<open>entry_index\<close> is incremented before it
  is printed. (The counter is an \<^verbatim>\<open>int\<close>; a record has far fewer fields than it can count.)
\<close>

fun log_entries :: "MapFieldValue \<Rightarrow> int \<Rightarrow> Event list \<Rightarrow> Event list" where
  "log_entries [] entry_index t = t"
| "log_entries (entry # rest) entry_index t =
     log_entries rest (entry_index + 1)
       (Log [''Entry #'', to_string (entry_index + 1), '': '', fst entry, ''='',
             ToString (snd entry)] t)"

definition DoRead :: "Error \<Rightarrow> Collaborator \<Rightarrow> DocumentReference \<Rightarrow> Event list \<Rightarrow> unit Run" where
  "DoRead E sdk doc t =
     (let t1 = Log [''*** DoRead() doc='', path doc] t;
          future = futures sdk (length (requests t1));
          t2 = t1 @ [Issue (Get doc kServer)]
      in case AwaitCompletion E future ''DocumentReference.Get()'' t2 of
           Blocked t' \<Rightarrow> Blocked t'
         | Returned u t3 \<Rightarrow>
             let data = result_data future;
                 t4 = Log [''Document # key/value pairs: '', decimal (length data)] t3
             in Returned () (log_entries data 0 t4))"

definition DoWrite :: "Error \<Rightarrow> Collaborator \<Rightarrow> DocumentReference \<Rightarrow> Event list \<Rightarrow> unit Run" where
  "DoWrite E sdk doc t =
     (let t1 = Log [''*** DoWrite() doc='', path doc] t;
          m = map_assign ''meaning'' (Integer 42) [];
          future = futures sdk (length (requests t1));
          t2 = t1 @ [Issue (SetFields doc m)]
      in AwaitCompletion E future ''DocumentReference.Set()'' t2)"

subsection \<open>The entry point\<close>

text \<open>The loop over the operations in \<^verbatim>\<open>main\<close>; falling out of it is \<^verbatim>\<open>return 0\<close>.\<close>

fun run_operations ::
  "Error \<Rightarrow> Collaborator \<Rightarrow> DocumentReference \<Rightarrow> Operation list \<Rightarrow> Event list \<Rightarrow> int Run" where
  "run_operations E sdk doc [] t = Returned 0 t"
| "run_operations E sdk doc (operation # rest) t =
     (if operation = kRead then
        (case DoRead E sdk doc t of
           Blocked t' \<Rightarrow> Blocked t'
         | Returned u t' \<Rightarrow> run_operations E sdk doc rest t')
      else if operation = kWrite then
        (case DoWrite E sdk doc t of
           Blocked t' \<Rightarrow> Blocked t'
         | Returned u t' \<Rightarrow> run_operations E sdk doc rest t')
      else Returned 1
             (Log [''INTERNAL ERROR: unknown value for operation: '',
                   to_string (static_cast_int operation)] t))"

definition main :: "Error \<Rightarrow> Collaborator \<Rightarrow> string list \<Rightarrow> int Run" where
  "main E sdk argv =
     (case ParseOperations argv of
        Inl e \<Rightarrow> Returned 2 (Log [''ERROR: Invalid command-line arguments: '', what e] [])
      | Inr operations \<Rightarrow>
          let t1 = Log [''Creating firebase::App''] [] in
          if \<not> app_created sdk
          then Returned 1 (Log [''ERROR: Creating firebase::App FAILED!''] t1)
          else
            let t2 = Log [''Creating firebase::firestore::Firestore''] t1 in
            if \<not> firestore_created sdk
            then Returned 1 (Log [''ERROR: Creating firebase::firestore::Firestore FAILED!''] t2)
            else
              let doc = Document ''UnityIssue1154TestApp/TestDoc'';
                  t3 = Log [''Performing '', decimal (length operations),
                            '' operations on document: '', path doc] t2
              in run_operations E sdk doc operations t3)"

section \<open>Observations on a run\<close>

text \<open>
  What the properties below read off a run: the exit status (none for a run that blocks), the
  exchange with the collaborator (the trace without the printed lines), and the lines that
  only the \<^verbatim>\<open>default\<close> label of the switch in \<^verbatim>\<open>main\<close> prints.
\<close>

fun exit_status :: "int Run \<Rightarrow> int option" where
  "exit_status (Returned x t) = Some x"
| "exit_status (Blocked t) = None"

fun interaction :: "Event list \<Rightarrow> Event list" where
  "interaction [] = []"
| "interaction (Print s # t) = interaction t"
| "interaction (e # t) = e # interaction t"

fun internal_fault :: "Event \<Rightarrow> bool" where
  "internal_fault (Print s) = prefix ''INTERNAL ERROR: unknown value for operation: '' s"
| "internal_fault e = False"

definition default_write :: "Request \<Rightarrow> bool" where
  "default_write r =
     (case r of
        Get d s \<Rightarrow> True
      | SetFields d m \<Rightarrow> d = Document ''UnityIssue1154TestApp/TestDoc'' \<and> m = [(''meaning'', Integer 42)])"

definition expected_request :: "DocumentReference \<Rightarrow> Operation \<Rightarrow> Request" where
  "expected_request doc operation =
     (if operation = kRead then Get doc kServer else SetFields doc [(''meaning'', Integer 42)])"

definition known :: "Operation \<Rightarrow> bool" where
  "known operation \<longleftrightarrow> operation = kRead \<or> operation = kWrite"

text \<open>The line that \<^verbatim>\<open>AwaitCompletion\<close> prints once the wait has returned.\<close>

definition outcome_line :: "Error \<Rightarrow> Future \<Rightarrow> string \<Rightarrow> string" where
  "outcome_line E future name =
     (if error future \<noteq> kErrorOk E
      then name @ '' FAILED: '' @ FirestoreErrorNameFromErrorCode E (error future) @ '' '' @ error_message future
      else name @ '' done'')"

definition token_operation :: "string \<Rightarrow> Operation" where
  "token_operation token = (if token = ''read'' then kRead else kWrite)"

definition invalid_argument :: "string \<Rightarrow> ArgParseException" where
  \<open>invalid_argument token =
     ArgParseException (''invalid argument: '' @ token @ '' (must be either "read" or "write")'')\<close>

text \<open>
  The names of the \<^verbatim>\<open>case\<close> labels of \<^verbatim>\<open>FirestoreErrorNameFromErrorCode\<close>, in the order of
  \<open>case_labels\<close>, and the number that a string of decimal digits denotes.
\<close>

fun digit_value :: "char \<Rightarrow> nat" where
  "digit_value c = of_char c - 48"

definition decimal_value :: "string \<Rightarrow> nat" where
  "decimal_value s = foldl (\<lambda>v c. 10 * v + digit_value c) 0 s"

definition case_names :: "string list" where
  "case_names =
     [''kErrorOk'', ''kErrorCancelled'', ''kErrorUnknown'', ''kErrorInvalidArgument'',
      ''kErrorDeadlineExceeded'', ''kErrorNotFound'', ''kErrorAlreadyExists'',
      ''kErrorPermissionDenied'', ''kErrorResourceExhausted'', ''kErrorFailedPrecondition'',
      ''kErrorAborted'', ''kErrorOutOfRange'', ''kErrorUnimplemented'', ''kErrorInternal'',
      ''kErrorUnavailable'', ''kErrorDataLoss'', ''kErrorUnauthenticated'']"

text \<open>
  Futures and collaborators for the examples: a future that completed without an error, one
  that completed with an error code and a message, one that stays pending, and a collaborator
  that creates both objects and answers the requests with the futures of a list, in order,
  and with pending futures after them.
\<close>

definition succeeded :: "MapFieldValue \<Rightarrow> Future" where
  "succeeded data =
     \<lparr>status = kFutureStatusComplete, error = 0, error_message = [], result_data = data\<rparr>"

definition failed :: "int \<Rightarrow> string \<Rightarrow> Future" where
  "failed code message =
     \<lparr>status = kFutureStatusComplete, error = code, error_message = message, result_data = []\<rparr>"

definition never :: Future where
  "never = \<lparr>status = kFutureStatusPending, error = 0, error_message = [], result_data = []\<rparr>"

definition session :: "Future list \<Rightarrow> Collaborator" where
  "session fs =
     \<lparr>app_created = True, firestore_created = True,
      futures = (\<lambda>n. if n < length fs then fs ! n else never)\<rparr>"

section \<open>Traces of the operations\<close>

lemma requests_append [simp]: "requests (t @ t') = requests t @ requests t'"
  by (induction t rule: requests.induct) auto

lemma stdout_append [simp]: "stdout (t @ t') = stdout t @ stdout t'"
  by (induction t rule: stdout.induct) auto

lemma interaction_append [simp]: "interaction (t @ t') = interaction t @ interaction t'"
  by (induction t rule: interaction.induct) auto

lemma log_entries_append: "log_entries data i t = t @ log_entries data i []"
proof (induction data arbitrary: i t)
  case Nil
  show ?case by simp
next
  case (Cons entry rest)
  show ?case
    using Cons.IH [of "i + 1" "Log [''Entry #'', to_string (i + 1), '': '', fst entry, ''='', ToString (snd entry)] t"]
          Cons.IH [of "i + 1" "Log [''Entry #'', to_string (i + 1), '': '', fst entry, ''='', ToString (snd entry)] []"]
    by (simp add: Log_def)
qed

lemma interaction_log_entries [simp]: "interaction (log_entries data i []) = []"
proof (induction data arbitrary: i)
  case Nil
  show ?case by simp
next
  case (Cons entry rest)
  show ?case
    using Cons.IH [of "i + 1"]
      log_entries_append [of rest "i + 1" "Log [''Entry #'', to_string (i + 1), '': '', fst entry, ''='', ToString (snd entry)] []"]
    by (simp add: Log_def)
qed

lemma AwaitCompletion_completed:
  "status future \<noteq> kFutureStatusPending \<Longrightarrow>
   AwaitCompletion E future name t =
     Returned () (t @ [Print (name @ '' start''), Awaited, Print (outcome_line E future name)])"
  by (simp add: AwaitCompletion_def AwaitInvoked_def Log_def outcome_line_def)

lemma AwaitCompletion_pending:
  "status future = kFutureStatusPending \<Longrightarrow>
   AwaitCompletion E future name t = Blocked (t @ [Print (name @ '' start'')])"
  by (simp add: AwaitCompletion_def AwaitInvoked_def Log_def)

lemma DoRead_completed:
  "status (futures sdk (length (requests t))) \<noteq> kFutureStatusPending \<Longrightarrow>
   DoRead E sdk doc t =
     Returned ()
       (t @ [Print (''*** DoRead() doc='' @ path doc), Issue (Get doc kServer),
             Print ''DocumentReference.Get() start'', Awaited,
             Print (outcome_line E (futures sdk (length (requests t))) ''DocumentReference.Get()''),
             Print (''Document # key/value pairs: ''
                    @ decimal (length (result_data (futures sdk (length (requests t))))))]
          @ log_entries (result_data (futures sdk (length (requests t)))) 0 [])"
proof -
  let ?f = "futures sdk (length (requests t))"
  let ?t4 = "t @ [Print (''*** DoRead() doc='' @ path doc), Issue (Get doc kServer),
             Print ''DocumentReference.Get() start'', Awaited,
             Print (outcome_line E ?f ''DocumentReference.Get()''),
             Print (''Document # key/value pairs: '' @ decimal (length (result_data ?f)))]"
  assume completed: "status ?f \<noteq> kFutureStatusPending"
  have "DoRead E sdk doc t = Returned () (log_entries (result_data ?f) 0 ?t4)"
    using completed by (simp add: DoRead_def Let_def Log_def AwaitCompletion_completed)
  also have "log_entries (result_data ?f) 0 ?t4 = ?t4 @ log_entries (result_data ?f) 0 []"
    by (rule log_entries_append)
  finally show ?thesis by simp
qed

lemma DoRead_pending:
  "status (futures sdk (length (requests t))) = kFutureStatusPending \<Longrightarrow>
   DoRead E sdk doc t =
     Blocked (t @ [Print (''*** DoRead() doc='' @ path doc), Issue (Get doc kServer),
                   Print ''DocumentReference.Get() start''])"
  by (simp add: DoRead_def Let_def Log_def AwaitCompletion_pending)

lemma DoWrite_completed:
  "status (futures sdk (length (requests t))) \<noteq> kFutureStatusPending \<Longrightarrow>
   DoWrite E sdk doc t =
     Returned ()
       (t @ [Print (''*** DoWrite() doc='' @ path doc),
             Issue (SetFields doc [(''meaning'', Integer 42)]),
             Print ''DocumentReference.Set() start'', Awaited,
             Print (outcome_line E (futures sdk (length (requests t))) ''DocumentReference.Set()'')])"
  by (simp add: DoWrite_def Let_def Log_def AwaitCompletion_completed)

lemma DoWrite_pending:
  "status (futures sdk (length (requests t))) = kFutureStatusPending \<Longrightarrow>
   DoWrite E sdk doc t =
     Blocked (t @ [Print (''*** DoWrite() doc='' @ path doc),
                   Issue (SetFields doc [(''meaning'', Integer 42)]),
                   Print ''DocumentReference.Set() start''])"
  by (simp add: DoWrite_def Let_def Log_def AwaitCompletion_pending)


lemma kRead_neq_kWrite [simp]: "kRead \<noteq> kWrite" "kWrite \<noteq> kRead"
  by (simp_all add: kRead_def kWrite_def)

lemma known_tags [simp]: "known kRead" "known kWrite"
  by (simp_all add: known_def)

lemma no_fault_log_entries: "\<not> list_ex internal_fault (log_entries data i [])"
proof (induction data arbitrary: i)
  case Nil
  show ?case by simp
next
  case (Cons entry rest)
  show ?case
    using Cons.IH [of "i + 1"]
      log_entries_append [of rest "i + 1" "Log [''Entry #'', to_string (i + 1), '': '', fst entry, ''='', ToString (snd entry)] []"]
    by (simp add: Log_def)
qed

lemma requests_log_entries [simp]: "requests (log_entries data i []) = []"
proof (induction data arbitrary: i)
  case Nil
  show ?case by simp
next
  case (Cons entry rest)
  show ?case
    using Cons.IH [of "i + 1"]
      log_entries_append [of rest "i + 1" "Log [''Entry #'', to_string (i + 1), '': '', fst entry, ''='', ToString (snd entry)] []"]
    by (simp add: Log_def)
qed

lemma no_fault_outcome_line:
  "\<not> prefix ''INTERNAL ERROR: unknown value for operation: ''
       (outcome_line E future (CHR ''D'' # name))"
  by (simp add: outcome_line_def)

lemma DoRead_trace:
  "\<exists>t'. trace (DoRead E sdk doc t) = t @ t' \<and> requests t' = [Get doc kServer]
        \<and> \<not> list_ex internal_fault t'"
proof (cases "status (futures sdk (length (requests t))) = kFutureStatusPending")
  case True
  then show ?thesis by (simp add: DoRead_pending)
next
  case False
  then show ?thesis
    using no_fault_outcome_line [of E "futures sdk (length (requests t))" "''ocumentReference.Get()''"]
    by (simp add: DoRead_completed no_fault_log_entries)
qed

lemma DoWrite_trace:
  "\<exists>t'. trace (DoWrite E sdk doc t) = t @ t'
        \<and> requests t' = [SetFields doc [(''meaning'', Integer 42)]]
        \<and> \<not> list_ex internal_fault t'"
proof (cases "status (futures sdk (length (requests t))) = kFutureStatusPending")
  case True
  then show ?thesis by (simp add: DoWrite_pending)
next
  case False
  then show ?thesis
    using no_fault_outcome_line [of E "futures sdk (length (requests t))" "''ocumentReference.Set()''"]
    by (simp add: DoWrite_completed)
qed

lemma run_operations_trace:
  "\<exists>t'. trace (run_operations E sdk doc ops t) = t @ t'
        \<and> set (requests t') \<subseteq> {Get doc kServer, SetFields doc [(''meaning'', Integer 42)]}
        \<and> (list_all known ops \<longrightarrow> \<not> list_ex internal_fault t')"
proof (induction ops arbitrary: t)
  case Nil
  show ?case by simp
next
  case (Cons operation rest)
  show ?case
  proof (cases "operation = kRead")
    case True
    obtain t1 where t1: "trace (DoRead E sdk doc t) = t @ t1" "requests t1 = [Get doc kServer]"
      "\<not> list_ex internal_fault t1"
      using DoRead_trace [of E sdk doc t] by blast
    show ?thesis
    proof (cases "DoRead E sdk doc t")
      case (Blocked t')
      with t1 True show ?thesis by simp
    next
      case (Returned u t')
      obtain t2 where t2: "trace (run_operations E sdk doc rest t') = t' @ t2"
        "set (requests t2) \<subseteq> {Get doc kServer, SetFields doc [(''meaning'', Integer 42)]}"
        "list_all known rest \<longrightarrow> \<not> list_ex internal_fault t2"
        using Cons.IH [of t'] by blast
      from Returned t1 have "t' = t @ t1" by simp
      with t1 t2 Returned True show ?thesis by simp
    qed
  next
    case False
    note not_read = False
    show ?thesis
    proof (cases "operation = kWrite")
      case True
      obtain t1 where t1: "trace (DoWrite E sdk doc t) = t @ t1"
        "requests t1 = [SetFields doc [(''meaning'', Integer 42)]]"
        "\<not> list_ex internal_fault t1"
        using DoWrite_trace [of E sdk doc t] by blast
      show ?thesis
      proof (cases "DoWrite E sdk doc t")
        case (Blocked t')
        with t1 True show ?thesis by simp
      next
        case (Returned u t')
        obtain t2 where t2: "trace (run_operations E sdk doc rest t') = t' @ t2"
          "set (requests t2) \<subseteq> {Get doc kServer, SetFields doc [(''meaning'', Integer 42)]}"
          "list_all known rest \<longrightarrow> \<not> list_ex internal_fault t2"
          using Cons.IH [of t'] by blast
        from Returned t1 have "t' = t @ t1" by simp
        with t1 t2 Returned True show ?thesis by simp
      qed
    next
      case False
      with not_read have "\<not> known operation" by (simp add: known_def)
      with False not_read show ?thesis by (simp add: Log_def)
    qed
  qed
qed

lemma run_operations_completed:
  "list_all known ops \<Longrightarrow>
   \<forall>n<length ops. status (futures sdk (length (requests t) + n)) \<noteq> kFutureStatusPending \<Longrightarrow>
   exit_status (run_operations E sdk doc ops t) = Some 0
   \<and> interaction (trace (run_operations E sdk doc ops t)) =
       interaction t @ concat (map (\<lambda>operation. [Issue (expected_request doc operation), Awaited]) ops)"
proof (induction ops arbitrary: t)
  case Nil
  show ?case by simp
next
  case (Cons operation rest)
  let ?f = "futures sdk (length (requests t))"
  from Cons.prems(2) have now: "status ?f \<noteq> kFutureStatusPending" by auto
  from Cons.prems(1) have rest: "list_all known rest" and "known operation"
    by simp_all
  then have op: "operation = kRead \<or> operation = kWrite"
    by (simp add: known_def)
  from op show ?case
  proof
    assume r: "operation = kRead"
    let ?t' = "t @ [Print (''*** DoRead() doc='' @ path doc), Issue (Get doc kServer),
             Print ''DocumentReference.Get() start'', Awaited,
             Print (outcome_line E ?f ''DocumentReference.Get()''),
             Print (''Document # key/value pairs: '' @ decimal (length (result_data ?f)))]
          @ log_entries (result_data ?f) 0 []"
    have step: "DoRead E sdk doc t = Returned () ?t'"
      using now by (rule DoRead_completed)
    have later: "\<forall>n<length rest. status (futures sdk (length (requests ?t') + n)) \<noteq> kFutureStatusPending"
      using Cons.prems(2) by auto
    from Cons.IH [OF rest later] r step show ?thesis
      by (simp add: expected_request_def)
  next
    assume w: "operation = kWrite"
    let ?t' = "t @ [Print (''*** DoWrite() doc='' @ path doc),
             Issue (SetFields doc [(''meaning'', Integer 42)]),
             Print ''DocumentReference.Set() start'', Awaited,
             Print (outcome_line E ?f ''DocumentReference.Set()'')]"
    have step: "DoWrite E sdk doc t = Returned () ?t'"
      using now by (rule DoWrite_completed)
    have later: "\<forall>n<length rest. status (futures sdk (length (requests ?t') + n)) \<noteq> kFutureStatusPending"
      using Cons.prems(2) by auto
    from Cons.IH [OF rest later] w step show ?thesis
      by (simp add: expected_request_def)
  qed
qed

section \<open>The parser\<close>

lemma parse_loop_append:
  "parse_loop (xs @ ys) acc =
     (case parse_loop xs acc of Inl e \<Rightarrow> Inl e | Inr ops \<Rightarrow> parse_loop ys ops)"
  by (induction xs arbitrary: acc) auto

lemma parse_loop_operations:
  "set ts \<subseteq> {''read'', ''write''} \<Longrightarrow> parse_loop ts acc = Inr (acc @ map token_operation ts)"
  by (induction ts arbitrary: acc) (auto simp: token_operation_def)

lemma parse_loop_invalid:
  "set ps \<subseteq> {''read'', ''write''} \<Longrightarrow> token \<noteq> ''read'' \<Longrightarrow> token \<noteq> ''write'' \<Longrightarrow>
   parse_loop (ps @ token # rest) acc = Inl (invalid_argument token)"
  by (simp add: parse_loop_append parse_loop_operations invalid_argument_def)

lemma parse_loop_known:
  "parse_loop ts acc = Inr ops \<Longrightarrow> list_all known acc \<Longrightarrow> list_all known ops"
  by (induction ts arbitrary: acc) (auto split: if_splits)

lemma parse_loop_tokens:
  "parse_loop ts acc = Inr ops \<Longrightarrow> set ts \<subseteq> {''read'', ''write''}"
  by (induction ts arbitrary: acc) (auto split: if_splits)

lemma ParseOperations_known: "ParseOperations argv = Inr ops \<Longrightarrow> list_all known ops"
  using parse_loop_known [of "drop 1 argv" "[]" ops]
  by (auto simp: ParseOperations_def split: sum.splits if_splits)

lemma ParseOperations_tokens:
  "ParseOperations argv = Inr ops \<Longrightarrow> set (drop 1 argv) \<subseteq> {''read'', ''write''}"
  using parse_loop_tokens [of "drop 1 argv" "[]"]
  by (auto simp: ParseOperations_def split: sum.splits if_splits)




text \<open>
  C5. With no argument after the program name the parser throws the usage error that asks
  for an argument, and there is no argument vector for which it returns the empty list of
  operations.
\<close>

theorem ParseOperations_never_empty:
  \<open>ParseOperations [prog] =
     Inl (ArgParseException
            ''No arguments specified; one or more of "read" or "write" is required'')
   \<and> ParseOperations argv \<noteq> Inr []\<close>
  by (auto simp: ParseOperations_def split: sum.splits)

section \<open>The entry point and its loop\<close>

lemma main_usage:
  "ParseOperations argv = Inl e \<Longrightarrow>
   main E sdk argv = Returned 2 [Print (''ERROR: Invalid command-line arguments: '' @ what e)]"
  by (simp add: main_def Log_def)

lemma main_no_app:
  "ParseOperations argv = Inr ops \<Longrightarrow> \<not> app_created sdk \<Longrightarrow>
   main E sdk argv =
     Returned 1 [Print ''Creating firebase::App'', Print ''ERROR: Creating firebase::App FAILED!'']"
  by (simp add: main_def Log_def)

lemma main_no_firestore:
  "ParseOperations argv = Inr ops \<Longrightarrow> app_created sdk \<Longrightarrow> \<not> firestore_created sdk \<Longrightarrow>
   main E sdk argv =
     Returned 1 [Print ''Creating firebase::App'', Print ''Creating firebase::firestore::Firestore'',
                 Print ''ERROR: Creating firebase::firestore::Firestore FAILED!'']"
  by (simp add: main_def Log_def)

lemma main_operations:
  "ParseOperations argv = Inr ops \<Longrightarrow> app_created sdk \<Longrightarrow> firestore_created sdk \<Longrightarrow>
   main E sdk argv =
     run_operations E sdk (Document ''UnityIssue1154TestApp/TestDoc'') ops
       [Print ''Creating firebase::App'', Print ''Creating firebase::firestore::Firestore'',
        Print (''Performing '' @ decimal (length ops)
               @ '' operations on document: UnityIssue1154TestApp/TestDoc'')]"
  by (simp add: main_def Log_def)

lemma run_operations_unknown:
  "list_all known ops \<Longrightarrow> \<not> known operation \<Longrightarrow>
   \<forall>n<length ops. status (futures sdk (length (requests t) + n)) \<noteq> kFutureStatusPending \<Longrightarrow>
   exit_status (run_operations E sdk doc (ops @ operation # rest) t) = Some 1
   \<and> list_ex internal_fault (trace (run_operations E sdk doc (ops @ operation # rest) t))"
proof (induction ops arbitrary: t)
  case Nil
  then show ?case by (simp add: known_def Log_def)
next
  case (Cons first ops)
  let ?f = "futures sdk (length (requests t))"
  from Cons.prems(3) have now: "status ?f \<noteq> kFutureStatusPending" by auto
  from Cons.prems(1) have rest: "list_all known ops" and "known first"
    by simp_all
  then have op: "first = kRead \<or> first = kWrite"
    by (simp add: known_def)
  from op show ?case
  proof
    assume r: "first = kRead"
    let ?t' = "t @ [Print (''*** DoRead() doc='' @ path doc), Issue (Get doc kServer),
             Print ''DocumentReference.Get() start'', Awaited,
             Print (outcome_line E ?f ''DocumentReference.Get()''),
             Print (''Document # key/value pairs: '' @ decimal (length (result_data ?f)))]
          @ log_entries (result_data ?f) 0 []"
    have step: "DoRead E sdk doc t = Returned () ?t'"
      using now by (rule DoRead_completed)
    have later: "\<forall>n<length ops. status (futures sdk (length (requests ?t') + n)) \<noteq> kFutureStatusPending"
      using Cons.prems(3) by auto
    from Cons.IH [OF rest Cons.prems(2) later] r step show ?thesis
      by simp
  next
    assume w: "first = kWrite"
    let ?t' = "t @ [Print (''*** DoWrite() doc='' @ path doc),
             Issue (SetFields doc [(''meaning'', Integer 42)]),
             Print ''DocumentReference.Set() start'', Awaited,
             Print (outcome_line E ?f ''DocumentReference.Set()'')]"
    have step: "DoWrite E sdk doc t = Returned () ?t'"
      using now by (rule DoWrite_completed)
    have later: "\<forall>n<length ops. status (futures sdk (length (requests ?t') + n)) \<noteq> kFutureStatusPending"
      using Cons.prems(3) by auto
    from Cons.IH [OF rest Cons.prems(2) later] w step show ?thesis
      by simp
  qed
qed

lemma run_operations_known_exit:
  "list_all known ops \<Longrightarrow> exit_status (run_operations E sdk doc ops t) \<noteq> Some 1"
proof (induction ops arbitrary: t)
  case Nil
  show ?case by simp
next
  case (Cons operation rest)
  from Cons.prems have rest: "list_all known rest" and "known operation"
    by simp_all
  then have "operation = kRead \<or> operation = kWrite"
    by (simp add: known_def)
  then show ?case
  proof
    assume "operation = kRead"
    then show ?thesis
      using Cons.IH [OF rest] by (simp split: Run.splits)
  next
    assume "operation = kWrite"
    then show ?thesis
      using Cons.IH [OF rest] by (simp split: Run.splits)
  qed
qed

text \<open>
  C4. The exit status is 2 when the parser throws; 1 when the parser returns and
  \<^verbatim>\<open>App::Create\<close> or \<^verbatim>\<open>Firestore::GetInstance\<close> returns no object; and 0 when the parser
  returns, both objects are created and every future that the operations obtain leaves the
  pending state, whatever error codes the futures carry. The loop returns 1 when it meets a
  tag that is neither \<open>kRead\<close> nor \<open>kWrite\<close>, after the operations before it have been
  awaited.
\<close>

theorem main_exit_status:
  "(ParseOperations argv = Inl e \<longrightarrow> exit_status (main E sdk argv) = Some 2)
   \<and> (ParseOperations argv = Inr ops \<and> (\<not> app_created sdk \<or> \<not> firestore_created sdk) \<longrightarrow>
        exit_status (main E sdk argv) = Some 1)
   \<and> (ParseOperations argv = Inr ops \<and> app_created sdk \<and> firestore_created sdk
        \<and> (\<forall>n<length ops. status (futures sdk n) \<noteq> kFutureStatusPending) \<longrightarrow>
        exit_status (main E sdk argv) = Some 0)
   \<and> (list_all known before \<and> \<not> known operation
        \<and> (\<forall>n<length before. status (futures sdk (length (requests t) + n)) \<noteq> kFutureStatusPending) \<longrightarrow>
        exit_status (run_operations E sdk doc (before @ operation # rest) t) = Some 1)"
proof (intro conjI impI)
  assume "ParseOperations argv = Inl e"
  then show "exit_status (main E sdk argv) = Some 2"
    by (simp add: main_usage)
next
  assume "ParseOperations argv = Inr ops \<and> (\<not> app_created sdk \<or> \<not> firestore_created sdk)"
  then show "exit_status (main E sdk argv) = Some 1"
    by (cases "app_created sdk") (auto simp: main_no_app main_no_firestore)
next
  assume a: "ParseOperations argv = Inr ops \<and> app_created sdk \<and> firestore_created sdk
        \<and> (\<forall>n<length ops. status (futures sdk n) \<noteq> kFutureStatusPending)"
  then have "list_all known ops"
    using ParseOperations_known [of argv ops] by simp
  with a show "exit_status (main E sdk argv) = Some 0"
    by (simp add: main_operations run_operations_completed)
next
  assume "list_all known before \<and> \<not> known operation
        \<and> (\<forall>n<length before. status (futures sdk (length (requests t) + n)) \<noteq> kFutureStatusPending)"
  then show "exit_status (run_operations E sdk doc (before @ operation # rest) t) = Some 1"
    by (simp add: run_operations_unknown)
qed


theorem main_exit_status_witness:
  "exit_status (main firestore_errors (session []) [''app'']) = Some 2
   \<and> exit_status (main firestore_errors ((session []) \<lparr>app_created := False\<rparr>) [''app'', ''read'']) = Some 1
   \<and> exit_status (main firestore_errors
         (session [failed 14 ''unavailable'', failed 7 ''denied'']) [''app'', ''read'', ''write'']) = Some 0
   \<and> exit_status (run_operations firestore_errors (session [succeeded []]) (Document ''d'')
         [kWrite, Operation 7, kRead] []) = Some 1"
proof -
  have p1: \<open>ParseOperations [''app''] =
      Inl (ArgParseException ''No arguments specified; one or more of "read" or "write" is required'')\<close>
    by code_simp
  have p2: "ParseOperations [''app'', ''read''] = Inr [kRead]
      \<and> (\<not> app_created ((session []) \<lparr>app_created := False\<rparr>)
          \<or> \<not> firestore_created ((session []) \<lparr>app_created := False\<rparr>))"
    by (simp add: ParseOperations_def)
  have p3: "ParseOperations [''app'', ''read'', ''write''] = Inr [kRead, kWrite]
      \<and> app_created (session [failed 14 ''unavailable'', failed 7 ''denied''])
      \<and> firestore_created (session [failed 14 ''unavailable'', failed 7 ''denied''])
      \<and> (\<forall>n<length [kRead, kWrite].
            status (futures (session [failed 14 ''unavailable'', failed 7 ''denied'']) n)
              \<noteq> kFutureStatusPending)"
    by (simp add: ParseOperations_def session_def failed_def nth_Cons')
  have p4: "list_all known [kWrite] \<and> \<not> known (Operation 7)
      \<and> (\<forall>n<length [kWrite].
            status (futures (session [succeeded []]) (length (requests []) + n))
              \<noteq> kFutureStatusPending)"
    by (simp add: known_def kRead_def kWrite_def session_def succeeded_def)
  from p1 p2 p3 p4 show ?thesis
    using main_exit_status [where argv = "[''app'']" and E = firestore_errors and sdk = "session []"
        and e = \<open>ArgParseException ''No arguments specified; one or more of "read" or "write" is required''\<close>]
      main_exit_status [where argv = "[''app'', ''read'']" and E = firestore_errors
        and sdk = "(session []) \<lparr>app_created := False\<rparr>" and ops = "[kRead]"]
      main_exit_status [where argv = "[''app'', ''read'', ''write'']" and E = firestore_errors
        and sdk = "session [failed 14 ''unavailable'', failed 7 ''denied'']" and ops = "[kRead, kWrite]"]
      main_exit_status [where E = firestore_errors and sdk = "session [succeeded []]"
        and before = "[kWrite]" and operation = "Operation 7" and rest = "[kRead]"
        and t = "[]" and doc = "Document ''d''"]
    by simp
qed



section \<open>What the program issues and prints\<close>

lemma main_trace_cases:
  "(\<exists>e. ParseOperations argv = Inl e \<and> main E sdk argv = Returned 2 [Print (''ERROR: Invalid command-line arguments: '' @ what e)])
   \<or> (\<exists>ops. ParseOperations argv = Inr ops \<and> \<not> app_created sdk \<and> main E sdk argv =
     Returned 1 [Print ''Creating firebase::App'', Print ''ERROR: Creating firebase::App FAILED!''])
   \<or> (\<exists>ops. ParseOperations argv = Inr ops \<and> app_created sdk \<and> \<not> firestore_created sdk \<and> main E sdk argv =
     Returned 1 [Print ''Creating firebase::App'', Print ''Creating firebase::firestore::Firestore'',
                 Print ''ERROR: Creating firebase::firestore::Firestore FAILED!''])
   \<or> (\<exists>ops. ParseOperations argv = Inr ops \<and> app_created sdk \<and> firestore_created sdk \<and> main E sdk argv =
     run_operations E sdk (Document ''UnityIssue1154TestApp/TestDoc'') ops
       [Print ''Creating firebase::App'', Print ''Creating firebase::firestore::Firestore'',
        Print (''Performing '' @ decimal (length ops)
               @ '' operations on document: UnityIssue1154TestApp/TestDoc'')])"
proof (cases "ParseOperations argv")
  case (Inl e)
  then show ?thesis by (simp add: main_usage)
next
  case (Inr ops)
  then show ?thesis
    by (cases "app_created sdk"; cases "firestore_created sdk")
       (simp_all add: main_no_app main_no_firestore main_operations)
qed

lemma main_requests:
  "set (requests (trace (main E sdk argv))) \<subseteq>
     {Get (Document ''UnityIssue1154TestApp/TestDoc'') kServer,
      SetFields (Document ''UnityIssue1154TestApp/TestDoc'') [(''meaning'', Integer 42)]}"
proof -
  let ?doc = "Document ''UnityIssue1154TestApp/TestDoc''"
  have "set (requests (trace (run_operations E sdk ?doc ops t))) \<subseteq>
     {Get ?doc kServer, SetFields ?doc [(''meaning'', Integer 42)]}"
    if "requests t = []" for ops t
    using run_operations_trace [of E sdk ?doc ops t] that by auto
  then show ?thesis
    using main_trace_cases [of argv E sdk] by (elim disjE exE conjE) simp_all
qed

lemma main_no_fault: "\<not> list_ex internal_fault (trace (main E sdk argv))"
proof -
  let ?doc = "Document ''UnityIssue1154TestApp/TestDoc''"
  have "\<not> list_ex internal_fault (trace (run_operations E sdk ?doc ops t))"
    if "\<not> list_ex internal_fault t" and "ParseOperations argv = Inr ops" for ops t
    using run_operations_trace [of E sdk ?doc ops t] ParseOperations_known [of argv ops] that
    by auto
  then show ?thesis
    using main_trace_cases [of argv E sdk] by (elim disjE exE conjE) simp_all
qed

text \<open>
  C9. Whatever the command line, the collaborator and the futures are, every \<^verbatim>\<open>Set\<close>
  request that the program issues is for the document \<^verbatim>\<open>UnityIssue1154TestApp/TestDoc\<close>
  and carries exactly one field, named \<^verbatim>\<open>meaning\<close>, with the integer value 42.
\<close>

theorem writes_are_fixed:
  "SetFields doc m \<in> set (requests (trace (main E sdk argv))) \<longrightarrow>
     doc = Document ''UnityIssue1154TestApp/TestDoc'' \<and> m = [(''meaning'', Integer 42)]
     \<and> length m = 1"
  using main_requests [of E sdk argv] by auto

theorem writes_are_fixed_witness:
  "SetFields (Document ''UnityIssue1154TestApp/TestDoc'') (map_assign ''meaning'' (Integer 42) [])
     \<in> set (requests (trace (main firestore_errors (session [succeeded [], failed 14 ''unavailable''])
                [''app'', ''write'', ''write''])))
   \<and> map_assign ''meaning'' (Integer 42) [] = [(''meaning'', Integer 42)]
   \<and> length (map_assign ''meaning'' (Integer 42) []) = 1"
proof -
  have issued: "SetFields (Document ''UnityIssue1154TestApp/TestDoc'') (map_assign ''meaning'' (Integer 42) [])
     \<in> set (requests (trace (main firestore_errors (session [succeeded [], failed 14 ''unavailable''])
                [''app'', ''write'', ''write''])))"
    by code_simp
  with writes_are_fixed [of "Document ''UnityIssue1154TestApp/TestDoc''"
      "map_assign ''meaning'' (Integer 42) []" firestore_errors
      "session [succeeded [], failed 14 ''unavailable'']" "[''app'', ''write'', ''write'']"]
  show ?thesis by blast
qed

text \<open>
  C10. The parser returns only the tags \<open>kRead\<close> and \<open>kWrite\<close>; no run of the program
  prints the line of the \<^verbatim>\<open>default\<close> label of the switch; and the program returns 1 only
  when one of the two creation calls has failed. (The loop itself does take the
  \<^verbatim>\<open>default\<close> label when it is given another tag: see C4.)
\<close>

theorem default_branch_unreachable:
  "(ParseOperations argv = Inr ops \<longrightarrow> list_all known ops)
   \<and> \<not> list_ex internal_fault (trace (main E sdk argv))
   \<and> (exit_status (main E sdk argv) = Some 1 \<longrightarrow> \<not> app_created sdk \<or> \<not> firestore_created sdk)"
proof (intro conjI impI)
  assume "ParseOperations argv = Inr ops"
  then show "list_all known ops" by (rule ParseOperations_known)
next
  show "\<not> list_ex internal_fault (trace (main E sdk argv))" by (rule main_no_fault)
next
  assume one: "exit_status (main E sdk argv) = Some 1"
  show "\<not> app_created sdk \<or> \<not> firestore_created sdk"
  proof (rule ccontr)
    assume "\<not> (\<not> app_created sdk \<or> \<not> firestore_created sdk)"
    then have created: "app_created sdk" "firestore_created sdk" by simp_all
    show False
    proof (cases "ParseOperations argv")
      case (Inl e)
      with one show False by (simp add: main_usage)
    next
      case (Inr parsed)
      then have "list_all known parsed" by (rule ParseOperations_known)
      then have "exit_status (run_operations E sdk (Document ''UnityIssue1154TestApp/TestDoc'') parsed
         [Print ''Creating firebase::App'', Print ''Creating firebase::firestore::Firestore'',
          Print (''Performing '' @ decimal (length parsed)
               @ '' operations on document: UnityIssue1154TestApp/TestDoc'')]) \<noteq> Some 1"
        by (rule run_operations_known_exit)
      with one Inr created show False by (simp add: main_operations)
    qed
  qed
qed

theorem default_branch_unreachable_witness:
  "ParseOperations [''app'', ''read'', ''write''] = Inr [kRead, kWrite]
   \<and> list_all known [kRead, kWrite]
   \<and> \<not> list_ex internal_fault
         (trace (main firestore_errors (session [succeeded []]) [''app'', ''read'', ''write'']))
   \<and> exit_status (main firestore_errors ((session []) \<lparr>firestore_created := False\<rparr>) [''app'', ''read'']) = Some 1
   \<and> \<not> firestore_created ((session []) \<lparr>firestore_created := False\<rparr>)"
proof -
  have parsed: "ParseOperations [''app'', ''read'', ''write''] = Inr [kRead, kWrite]"
    by (simp add: ParseOperations_def)
  have one: "exit_status (main firestore_errors ((session []) \<lparr>firestore_created := False\<rparr>) [''app'', ''read'']) = Some 1"
    by code_simp
  from parsed one
    default_branch_unreachable [of "[''app'', ''read'', ''write'']" "[kRead, kWrite]" firestore_errors "session [succeeded []]"]
    default_branch_unreachable [of "[''app'', ''read'']" "[kRead]" firestore_errors "(session []) \<lparr>firestore_created := False\<rparr>"]
  show ?thesis by simp
qed




text \<open>
  C3 asks that a read whose future completes with an error logs the name of the error code
  and the message, and does not enumerate the fields of a result. \<^verbatim>\<open>DoRead\<close> does not look
  at the error: for a future that completes with \<^verbatim>\<open>kErrorUnavailable\<close> and carries an empty
  record, it prints the failure line and then the line with the number of fields, as it does
  after a successful read (\<open>DoRead_completed\<close> gives the trace for every completed future).
\<close>

theorem failed_read_still_enumerates:
  "DoRead firestore_errors (session [failed 14 ''Failed to get document from server.''])
     (Document ''UnityIssue1154TestApp/TestDoc'') [] =
   Returned ()
     [Print ''*** DoRead() doc=UnityIssue1154TestApp/TestDoc'',
      Issue (Get (Document ''UnityIssue1154TestApp/TestDoc'') kServer),
      Print ''DocumentReference.Get() start'',
      Awaited,
      Print ''DocumentReference.Get() FAILED: kErrorUnavailable Failed to get document from server.'',
      Print ''Document # key/value pairs: 0'']"
  by code_simp

section \<open>The names of the error codes\<close>

lemma decimal_not_empty: "decimal n \<noteq> []"
  by (subst decimal.simps) simp

lemma to_string_not_empty: "to_string i \<noteq> []"
  by (simp add: to_string_def decimal_not_empty)

lemma digit_value_digit_char: "d < 10 \<Longrightarrow> digit_value (digit_char d) = d"
  by (simp add: digit_char_def)

lemma decimal_value_decimal: "decimal_value (decimal n) = n"
proof (induction n rule: decimal.induct)
  case (1 n)
  show ?case
  proof (cases "n < 10")
    case True
    then show ?thesis
      by (subst decimal.simps) (simp add: decimal_value_def digit_value_digit_char del: digit_value.simps)
  next
    case False
    with 1 have "decimal_value (decimal (n div 10)) = n div 10" by simp
    with False show ?thesis
      by (subst decimal.simps) (simp add: decimal_value_def digit_value_digit_char del: digit_value.simps)
  qed
qed

lemma switch_as_table:
  "FirestoreErrorNameFromErrorCode E err =
     (case map_of (zip (case_labels E) case_names) err of
        Some name \<Rightarrow> name
      | None \<Rightarrow> to_string err)"
  by (simp add: FirestoreErrorNameFromErrorCode_def case_labels_def case_names_def)

lemma labelled_name:
  assumes "distinct (case_labels E)" and "i < 17"
  shows "FirestoreErrorNameFromErrorCode E (case_labels E ! i) = case_names ! i"
proof -
  have "length (case_labels E) = length case_names" and "i < length case_names"
    using assms(2) by (simp_all add: case_labels_def case_names_def)
  with assms(1)
  have "map_of (zip (case_labels E) case_names) (case_labels E ! i) = Some (case_names ! i)"
    by (simp add: map_of_zip_nth)
  then show ?thesis by (simp add: switch_as_table)
qed

text \<open>
  C7. \<^verbatim>\<open>FirestoreErrorNameFromErrorCode\<close> is a function of the code alone (it takes and
  returns no trace). For every integer its result is not empty; for an integer that is none
  of the \<^verbatim>\<open>case\<close> labels it is the decimal rendering of the integer; and, the labels being
  pairwise different, for each of the seventeen labels it is the name of that enumerator.
\<close>

theorem error_names:
  "FirestoreErrorNameFromErrorCode E err \<noteq> []
   \<and> (err \<notin> set (case_labels E) \<longrightarrow> FirestoreErrorNameFromErrorCode E err = to_string err)
   \<and> (distinct (case_labels E) \<longrightarrow>
        FirestoreErrorNameFromErrorCode E (kErrorOk E) = ''kErrorOk''
        \<and> FirestoreErrorNameFromErrorCode E (kErrorCancelled E) = ''kErrorCancelled''
        \<and> FirestoreErrorNameFromErrorCode E (kErrorUnknown E) = ''kErrorUnknown''
        \<and> FirestoreErrorNameFromErrorCode E (kErrorInvalidArgument E) = ''kErrorInvalidArgument''
        \<and> FirestoreErrorNameFromErrorCode E (kErrorDeadlineExceeded E) = ''kErrorDeadlineExceeded''
        \<and> FirestoreErrorNameFromErrorCode E (kErrorNotFound E) = ''kErrorNotFound''
        \<and> FirestoreErrorNameFromErrorCode E (kErrorAlreadyExists E) = ''kErrorAlreadyExists''
        \<and> FirestoreErrorNameFromErrorCode E (kErrorPermissionDenied E) = ''kErrorPermissionDenied''
        \<and> FirestoreErrorNameFromErrorCode E (kErrorResourceExhausted E) = ''kErrorResourceExhausted''
        \<and> FirestoreErrorNameFromErrorCode E (kErrorFailedPrecondition E) = ''kErrorFailedPrecondition''
        \<and> FirestoreErrorNameFromErrorCode E (kErrorAborted E) = ''kErrorAborted''
        \<and> FirestoreErrorNameFromErrorCode E (kErrorOutOfRange E) = ''kErrorOutOfRange''
        \<and> FirestoreErrorNameFromErrorCode E (kErrorUnimplemented E) = ''kErrorUnimplemented''
        \<and> FirestoreErrorNameFromErrorCode E (kErrorInternal E) = ''kErrorInternal''
        \<and> FirestoreErrorNameFromErrorCode E (kErrorUnavailable E) = ''kErrorUnavailable''
        \<and> FirestoreErrorNameFromErrorCode E (kErrorDataLoss E) = ''kErrorDataLoss''
        \<and> FirestoreErrorNameFromErrorCode E (kErrorUnauthenticated E) = ''kErrorUnauthenticated'')"
proof (intro conjI impI)
  show "FirestoreErrorNameFromErrorCode E err \<noteq> []"
    by (simp add: FirestoreErrorNameFromErrorCode_def to_string_not_empty)
next
  assume "err \<notin> set (case_labels E)"
  then show "FirestoreErrorNameFromErrorCode E err = to_string err"
    by (simp add: FirestoreErrorNameFromErrorCode_def case_labels_def)
next
  assume "distinct (case_labels E)"
  then show "FirestoreErrorNameFromErrorCode E (kErrorOk E) = ''kErrorOk''"
    using labelled_name [of E 0] by (simp add: case_labels_def case_names_def)
next
  assume "distinct (case_labels E)"
  then show "FirestoreErrorNameFromErrorCode E (kErrorCancelled E) = ''kErrorCancelled''"
    using labelled_name [of E 1] by (simp add: case_labels_def case_names_def)
next
  assume "distinct (case_labels E)"
  then show "FirestoreErrorNameFromErrorCode E (kErrorUnknown E) = ''kErrorUnknown''"
    using labelled_name [of E 2] by (simp add: case_labels_def case_names_def)
next
  assume "distinct (case_labels E)"
  then show "FirestoreErrorNameFromErrorCode E (kErrorInvalidArgument E) = ''kErrorInvalidArgument''"
    using labelled_name [of E 3] by (simp add: case_labels_def case_names_def)
next
  assume "distinct (case_labels E)"
  then show "FirestoreErrorNameFromErrorCode E (kErrorDeadlineExceeded E) = ''kErrorDeadlineExceeded''"
    using labelled_name [of E 4] by (simp add: case_labels_def case_names_def)
next
  assume "distinct (case_labels E)"
  then show "FirestoreErrorNameFromErrorCode E (kErrorNotFound E) = ''kErrorNotFound''"
    using labelled_name [of E 5] by (simp add: case_labels_def case_names_def)
next
  assume "distinct (case_labels E)"
  then show "FirestoreErrorNameFromErrorCode E (kErrorAlreadyExists E) = ''kErrorAlreadyExists''"
    using labelled_name [of E 6] by (simp add: case_labels_def case_names_def)
next
  assume "distinct (case_labels E)"
  then show "FirestoreErrorNameFromErrorCode E (kErrorPermissionDenied E) = ''kErrorPermissionDenied''"
    using labelled_name [of E 7] by (simp add: case_labels_def case_names_def)
next
  assume "distinct (case_labels E)"
  then show "FirestoreErrorNameFromErrorCode E (kErrorResourceExhausted E) = ''kErrorResourceExhausted''"
    using labelled_name [of E 8] by (simp add: case_labels_def case_names_def)
next
  assume "distinct (case_labels E)"
  then show "FirestoreErrorNameFromErrorCode E (kErrorFailedPrecondition E) = ''kErrorFailedPrecondition''"
    using labelled_name [of E 9] by (simp add: case_labels_def case_names_def)
next
  assume "distinct (case_labels E)"
  then show "FirestoreErrorNameFromErrorCode E (kErrorAborted E) = ''kErrorAborted''"
    using labelled_name [of E 10] by (simp add: case_labels_def case_names_def)
next
  assume "distinct (case_labels E)"
  then show "FirestoreErrorNameFromErrorCode E (kErrorOutOfRange E) = ''kErrorOutOfRange''"
    using labelled_name [of E 11] by (simp add: case_labels_def case_names_def)
next
  assume "distinct (case_labels E)"
  then show "FirestoreErrorNameFromErrorCode E (kErrorUnimplemented E) = ''kErrorUnimplemented''"
    using labelled_name [of E 12] by (simp add: case_labels_def case_names_def)
next
  assume "distinct (case_labels E)"
  then show "FirestoreErrorNameFromErrorCode E (kErrorInternal E) = ''kErrorInternal''"
    using labelled_name [of E 13] by (simp add: case_labels_def case_names_def)
next
  assume "distinct (case_labels E)"
  then show "FirestoreErrorNameFromErrorCode E (kErrorUnavailable E) = ''kErrorUnavailable''"
    using labelled_name [of E 14] by (simp add: case_labels_def case_names_def)
next
  assume "distinct (case_labels E)"
  then show "FirestoreErrorNameFromErrorCode E (kErrorDataLoss E) = ''kErrorDataLoss''"
    using labelled_name [of E 15] by (simp add: case_labels_def case_names_def)
next
  assume "distinct (case_labels E)"
  then show "FirestoreErrorNameFromErrorCode E (kErrorUnauthenticated E) = ''kErrorUnauthenticated''"
    using labelled_name [of E 16] by (simp add: case_labels_def case_names_def)
qed



theorem error_names_witness:
  "distinct (case_labels firestore_errors)
   \<and> FirestoreErrorNameFromErrorCode firestore_errors 4 = ''kErrorDeadlineExceeded''
   \<and> FirestoreErrorNameFromErrorCode firestore_errors 16 = ''kErrorUnauthenticated''
   \<and> 17 \<notin> set (case_labels firestore_errors)
   \<and> FirestoreErrorNameFromErrorCode firestore_errors 17 = ''17''
   \<and> (- 2147483648) \<notin> set (case_labels firestore_errors)
   \<and> FirestoreErrorNameFromErrorCode firestore_errors (- 2147483648) = ''-2147483648''"
proof -
  have labels: "distinct (case_labels firestore_errors)"
    by (simp add: case_labels_def firestore_errors_def)
  have other: "17 \<notin> set (case_labels firestore_errors)"
    "(- 2147483648) \<notin> set (case_labels firestore_errors)"
    by (simp_all add: case_labels_def firestore_errors_def)
  have digits: "to_string 17 = ''17''" "to_string (- 2147483648) = ''-2147483648''"
    by (simp_all add: to_string_def decimal.simps digit_char_def char_of_eq_iff)
  have codes: "kErrorDeadlineExceeded firestore_errors = 4" "kErrorUnauthenticated firestore_errors = 16"
    by (simp_all add: firestore_errors_def)
  from labels other digits codes
    error_names [of firestore_errors 17] error_names [of firestore_errors "- 2147483648"]
  show ?thesis by simp
qed

end
